theory Spec2Isabelle
  imports Complex_Main "HOL-Library.List_Lexorder" "HOL-Library.Multiset"
begin

section \<open>Python values\<close>

text \<open>
  A Python \<^verbatim>\<open>str\<close> is a sequence of Unicode code points, so it is modelled as a list of
  naturals; the source's ASCII literals are written \<open>pys ''...''\<close> and its Chinese literals
  are spelled out as code points. With \<open>List_Lexorder\<close> the order on \<open>pystr\<close> is the
  lexicographic order on code points, which is how Python compares strings.
\<close>

type_synonym pystr = "nat list"

abbreviation (input) pys :: "string \<Rightarrow> pystr" where
  "pys s \<equiv> map of_char s"

text \<open>
  The values that flow through the metadata dictionaries and the remote JSON response:
  \<^verbatim>\<open>None\<close>, booleans, integers, strings, lists and dictionaries (a dictionary is an
  association list, looked up with \<open>map_of\<close>). JSON numbers are modelled by integers.
\<close>

datatype pyval = PNone | PBool bool | PInt int | PStr pystr
  | PList "pyval list" | PDict "(pystr \<times> pyval) list"

type_synonym pydict = "(pystr \<times> pyval) list"

text \<open>Truth value of a Python object, as \<^verbatim>\<open>if x\<close>, \<^verbatim>\<open>x or y\<close> and \<^verbatim>\<open>x and y\<close> test it.\<close>

fun truthy :: "pyval \<Rightarrow> bool" where
  "truthy PNone = False"
| "truthy (PBool b) = b"
| "truthy (PInt i) = (i \<noteq> 0)"
| "truthy (PStr s) = (s \<noteq> [])"
| "truthy (PList xs) = (xs \<noteq> [])"
| "truthy (PDict d) = (d \<noteq> [])"

text \<open>\<^verbatim>\<open>x or y\<close>: the first operand when it is truthy, else the second.\<close>

definition py_or :: "pyval \<Rightarrow> pyval \<Rightarrow> pyval" where
  "py_or x y = (if truthy x then x else y)"

lemma map_of_size:
  "map_of d k = Some v \<Longrightarrow> size (v::pyval) \<le> size_list (size_prod (\<lambda>x. 0) size) d"
  by (induction d) (auto split: if_splits)

text \<open>
  Python's \<^verbatim>\<open>==\<close>: booleans compare as the integers 0 and 1, lists element by element,
  dictionaries key by key; values of different kinds are unequal.
\<close>

function py_eq :: "pyval \<Rightarrow> pyval \<Rightarrow> bool" where
  "py_eq PNone b = (b = PNone)"
| "py_eq (PBool a) b = (case b of PBool c \<Rightarrow> a = c
      | PInt j \<Rightarrow> (if a then 1 else 0) = j | _ \<Rightarrow> False)"
| "py_eq (PInt i) b = (case b of PBool c \<Rightarrow> i = (if c then 1 else 0)
      | PInt j \<Rightarrow> i = j | _ \<Rightarrow> False)"
| "py_eq (PStr s) b = (b = PStr s)"
| "py_eq (PList xs) b = (case b of PList ys \<Rightarrow> list_all2 py_eq xs ys | _ \<Rightarrow> False)"
| "py_eq (PDict d) b = (case b of PDict e \<Rightarrow>
      list_all (\<lambda>k. case map_of d k of None \<Rightarrow> False
                    | Some v \<Rightarrow> (case map_of e k of None \<Rightarrow> False | Some w \<Rightarrow> py_eq v w))
        (map fst d @ map fst e) | _ \<Rightarrow> False)"
  by pat_completeness auto
termination
  apply (relation "measure (\<lambda>(a, b). size a)")
  apply (auto simp: map_of_size less_Suc_eq_le size_list_estimation')
  done

text \<open>\<^verbatim>\<open>d.get(k)\<close> and \<^verbatim>\<open>d.get(k, default)\<close>.\<close>

definition dget :: "pydict \<Rightarrow> pystr \<Rightarrow> pyval" where
  "dget d k = (case map_of d k of None \<Rightarrow> PNone | Some v \<Rightarrow> v)"

definition dget_default :: "pydict \<Rightarrow> pystr \<Rightarrow> pyval \<Rightarrow> pyval" where
  "dget_default d k dflt = (case map_of d k of None \<Rightarrow> dflt | Some v \<Rightarrow> v)"

section \<open>String operations\<close>

text \<open>\<^verbatim>\<open>sub in s\<close> on strings: \<open>sub\<close> occurs as a contiguous substring of \<open>s\<close>.\<close>

fun py_in :: "pystr \<Rightarrow> pystr \<Rightarrow> bool" where
  "py_in sub [] = (sub = [])"
| "py_in sub (c # cs) = (take (length sub) (c # cs) = sub \<or> py_in sub cs)"

text \<open>\<^verbatim>\<open>s.endswith(suffix)\<close>.\<close>

definition endswith :: "pystr \<Rightarrow> pystr \<Rightarrow> bool" where
  "endswith s suffix = (length suffix \<le> length s \<and> drop (length s - length suffix) s = suffix)"

text \<open>
  The line boundaries of \<^verbatim>\<open>str.splitlines\<close>: LF, VT, FF, CR, FS, GS, RS, NEL, LS and PS;
  CR LF counts as one boundary.
\<close>

definition is_linebreak :: "nat \<Rightarrow> bool" where
  "is_linebreak c = (c \<in> {10, 11, 12, 13, 28, 29, 30, 133, 8232, 8233})"

text \<open>
  \<open>splitlines_from cur s\<close> carries the current line, reversed, in \<open>cur\<close>. A line is
  emitted at each boundary; the text after the last boundary is a line only when it is not
  empty.
\<close>

fun splitlines_from :: "pystr \<Rightarrow> pystr \<Rightarrow> pystr list" where
  "splitlines_from cur [] = (if cur = [] then [] else [rev cur])"
| "splitlines_from cur (c # cs) =
     (if c = 13 then
        (case cs of
           [] \<Rightarrow> [rev cur]
         | d # ds \<Rightarrow> if d = 10 then rev cur # splitlines_from [] ds
                     else rev cur # splitlines_from [] (d # ds))
      else if is_linebreak c then rev cur # splitlines_from [] cs
      else splitlines_from (c # cur) cs)"

definition splitlines :: "pystr \<Rightarrow> pystr list" where
  "splitlines s = splitlines_from [] s"

text \<open>
  What a line of a text is, said without the splitting loop: a non-empty stretch of the
  text that contains no line boundary, begins at the start of the text or right after a
  boundary character, and ends at the end of the text or right before one.
\<close>

definition no_linebreak :: "pystr \<Rightarrow> bool" where
  "no_linebreak l = (\<forall>c \<in> set l. \<not> is_linebreak c)"

definition text_line :: "pystr \<Rightarrow> pystr \<Rightarrow> bool" where
  "text_line text l =
     (l \<noteq> [] \<and> no_linebreak l
      \<and> (\<exists>p q. text = p @ l @ q \<and> (p = [] \<or> is_linebreak (last p))
             \<and> (q = [] \<or> is_linebreak (hd q))))"

section \<open>Link builders\<close>

text \<open>
  \<^verbatim>\<open>f"https://www.curseforge.com/minecraft/mc-mods/{name}"\<close> and
  \<^verbatim>\<open>f"https://search.mcmod.cn/s?key={name}"\<close>, for a name that is a string:
  the format field of a string is the string itself.
\<close>

definition curseforge_link :: "pystr \<Rightarrow> pystr" where
  "curseforge_link name = pys ''https://www.curseforge.com/minecraft/mc-mods/'' @ name"

definition mcmod_link :: "pystr \<Rightarrow> pystr" where
  "mcmod_link name = pys ''https://search.mcmod.cn/s?key='' @ name"

section \<open>Parsing and classification\<close>

text \<open>
  The three category strings of the source, as code points:
  U+670D U+52A1 U+7AEF (server side), U+4EC5 U+5BA2 U+6237 U+7AEF (client only),
  U+89E3 U+6790 U+5931 U+8D25 (parse failed).
\<close>

definition cat_server :: pystr where
  "cat_server = [26381, 21153, 31471]"

definition cat_client :: pystr where
  "cat_client = [20165, 23458, 25143, 31471]"

definition cat_failed :: pystr where
  "cat_failed = [35299, 26512, 22833, 36133]"

text \<open>
  The loop of \<open>parse_forge\<close> over the lines: the flag is set by every line that contains
  \<^verbatim>\<open>clientOnly\<close> and whose lower-cased form contains \<^verbatim>\<open>true\<close>, and is never cleared.
  \<^verbatim>\<open>str.lower\<close> follows the Unicode character database, which is not part of the program:
  it is the parameter \<open>lower\<close>.
\<close>

fun forge_scan :: "(pystr \<Rightarrow> pystr) \<Rightarrow> bool \<Rightarrow> pystr list \<Rightarrow> bool" where
  "forge_scan lower client_only [] = client_only"
| "forge_scan lower client_only (line # rest) =
     forge_scan lower
       (if py_in (pys ''clientOnly'') line \<and> py_in (pys ''true'') (lower line) then True
        else client_only) rest"

definition parse_forge :: "(pystr \<Rightarrow> pystr) \<Rightarrow> pystr \<Rightarrow> pyval \<Rightarrow> pydict" where
  "parse_forge lower text jar_name =
     [(pys ''loader'', PStr (pys ''forge'')),
      (pys ''client_only'', PBool (forge_scan lower False (splitlines text))),
      (pys ''id'', PNone),
      (pys ''name'', jar_name),
      (pys ''icon'', PNone)]"

text \<open>\<open>classify\<close>; \<open>None\<close> is the source's \<^verbatim>\<open>meta = None\<close>, and an empty dictionary is falsy too.\<close>

definition classify :: "pydict option \<Rightarrow> pystr" where
  "classify meta =
     (case meta of
        None \<Rightarrow> cat_failed
      | Some m \<Rightarrow>
          if m = [] then cat_failed
          else if py_eq (dget m (pys ''loader'')) (PStr (pys ''fabric'')) then
            (if py_eq (dget m (pys ''env'')) (PStr (pys ''client'')) then cat_client
             else cat_server)
          else if py_eq (dget m (pys ''loader'')) (PStr (pys ''forge'')) then
            (if truthy (dget m (pys ''client_only'')) then cat_client else cat_server)
          else if dget m (pys ''loader'') = PNone then cat_failed
          else cat_server)"

text \<open>
  \<open>clean_json\<close> deletes the control characters of the class
  \<^verbatim>\<open>[\x00-\x08\x0B\x0C\x0E-\x1F]\<close>; tab, line feed and carriage return stay.
\<close>

definition is_stripped_control :: "nat \<Rightarrow> bool" where
  "is_stripped_control c = (c \<le> 8 \<or> c = 11 \<or> c = 12 \<or> (14 \<le> c \<and> c \<le> 31))"

definition clean_json :: "pystr \<Rightarrow> pystr" where
  "clean_json text = filter (\<lambda>c. \<not> is_stripped_control c) text"

text \<open>The name of a value's type, as it appears in the message of an \<^verbatim>\<open>AttributeError\<close>.\<close>

fun type_name :: "pyval \<Rightarrow> pystr" where
  "type_name PNone = pys ''NoneType''"
| "type_name (PBool b) = pys ''bool''"
| "type_name (PInt i) = pys ''int''"
| "type_name (PStr s) = pys ''str''"
| "type_name (PList xs) = pys ''list''"
| "type_name (PDict d) = pys ''dict''"

definition no_attribute :: "pyval \<Rightarrow> string \<Rightarrow> pystr" where
  "no_attribute v attr =
     pys [CHR 0x27] @ type_name v @ pys ([CHR 0x27] @ '' object has no attribute '' @ [CHR 0x27])
       @ pys attr @ pys [CHR 0x27]"

text \<open>
  \<open>parse_fabric\<close>. \<^verbatim>\<open>json.loads\<close> is the parameter \<open>json_loads\<close>, \<open>None\<close> when it raises;
  that failure is caught and gives \<^verbatim>\<open>None\<close> (here \<open>Inr None\<close>). The \<^verbatim>\<open>data.get\<close> calls
  are outside the \<^verbatim>\<open>try\<close>: on a JSON document that is not an object they raise an
  \<^verbatim>\<open>AttributeError\<close>, which leaves \<open>parse_fabric\<close> (here \<open>Inl\<close> with the message).
\<close>

definition parse_fabric ::
  "(pystr \<Rightarrow> pyval option) \<Rightarrow> pystr \<Rightarrow> pyval \<Rightarrow> pystr + pydict option" where
  "parse_fabric json_loads text jar_name =
     (case json_loads (clean_json text) of
        None \<Rightarrow> Inr None
      | Some (PDict data) \<Rightarrow>
          Inr (Some
            [(pys ''loader'', PStr (pys ''fabric'')),
             (pys ''id'', dget data (pys ''id'')),
             (pys ''name'', py_or (dget data (pys ''name'')) jar_name),
             (pys ''env'', dget_default data (pys ''environment'') (PStr (pys ''*''))),
             (pys ''icon'', dget data (pys ''icon''))])
      | Some v \<Rightarrow> Inl (no_attribute v ''get''))"

text \<open>
  An archive as \<open>read_metadata\<close> sees it: opening it either raises (with a message) or
  gives the entries in the order of \<^verbatim>\<open>infolist()\<close>. Reading an entry either raises or
  gives its bytes, which \<open>safe_decode\<close> turns into text; an entry carries that text.
\<close>

datatype zentry = ZEntry (filename: pystr) (payload: "pystr + pystr")

datatype archive = BadArchive pystr | Archive "zentry list"

record jarfile =
  jar_name :: pystr
  jar_stem :: pystr
  jar_zip :: archive

text \<open>
  The diagnostics of \<open>read_metadata\<close>: \<^verbatim>\<open>fabric.mod.json\<close> and \<^verbatim>\<open>mods.toml\<close> followed by
  U+89E3 U+6790 U+5931 U+8D25 (parse failed), and U+672A U+627E U+5230 (not found)
  \<^verbatim>\<open>mods.toml\<close> U+6216 (or) \<^verbatim>\<open>fabric.mod.json\<close>.
\<close>

definition err_fabric :: pystr where
  "err_fabric = pys ''fabric.mod.json'' @ [35299, 26512, 22833, 36133]"

definition err_forge :: pystr where
  "err_forge = pys ''mods.toml'' @ [35299, 26512, 22833, 36133]"

definition err_no_manifest :: pystr where
  "err_no_manifest = [26410, 25214, 21040] @ pys ''mods.toml'' @ [25110] @ pys ''fabric.mod.json''"

definition unknown_meta :: "pystr \<Rightarrow> pydict" where
  "unknown_meta stem =
     [(pys ''loader'', PNone), (pys ''id'', PNone), (pys ''name'', PStr stem)]"

text \<open>
  The loop over the entries, inside the \<^verbatim>\<open>try\<close>: \<open>Inl\<close> is an exception on its way to
  the handler, \<open>Inr\<close> the returned pair. The first entry whose name ends with one of the
  two manifest names decides.
\<close>

fun scan_entries ::
  "(pystr \<Rightarrow> pyval option) \<Rightarrow> (pystr \<Rightarrow> pystr) \<Rightarrow> pystr \<Rightarrow> zentry list
     \<Rightarrow> pystr + (pydict option \<times> pystr option)" where
  "scan_entries json_loads lower stem [] =
     Inr (Some (unknown_meta stem), Some err_no_manifest)"
| "scan_entries json_loads lower stem (info # rest) =
     (if endswith (filename info) (pys ''fabric.mod.json'') then
        (case payload info of
           Inl msg \<Rightarrow> Inl msg
         | Inr text \<Rightarrow>
             (case parse_fabric json_loads text (PStr stem) of
                Inl msg \<Rightarrow> Inl msg
              | Inr meta \<Rightarrow>
                  Inr (meta, if meta \<noteq> None \<and> meta \<noteq> Some [] then None else Some err_fabric)))
      else if endswith (filename info) (pys ''mods.toml'') then
        (case payload info of
           Inl msg \<Rightarrow> Inl msg
         | Inr text \<Rightarrow>
             (let meta = parse_forge lower text (PStr stem)
              in Inr (Some meta, if meta \<noteq> [] then None else Some err_forge)))
      else scan_entries json_loads lower stem rest)"

definition read_metadata ::
  "(pystr \<Rightarrow> pyval option) \<Rightarrow> (pystr \<Rightarrow> pystr) \<Rightarrow> jarfile \<Rightarrow> pydict option \<times> pystr option" where
  "read_metadata json_loads lower jar =
     (case jar_zip jar of
        BadArchive msg \<Rightarrow> (Some (unknown_meta (jar_stem jar)), Some msg)
      | Archive infos \<Rightarrow>
          (case scan_entries json_loads lower (jar_stem jar) infos of
             Inl msg \<Rightarrow> (Some (unknown_meta (jar_stem jar)), Some msg)
           | Inr r \<Rightarrow> r))"

text \<open>
  Lower-casing of ASCII text, on which every \<^verbatim>\<open>str.lower\<close> agrees; it instantiates the
  parameter \<open>lower\<close> on concrete inputs.
\<close>

definition ascii_lower :: "pystr \<Rightarrow> pystr" where
  "ascii_lower s = map (\<lambda>c. if 65 \<le> c \<and> c \<le> 90 then c + 32 else c) s"


text \<open>
  What the specification calls the URL-encoded display name, following its words and not
  the source: percent-encoding of the UTF-8 bytes of the name, the unreserved characters
  (letters, digits, \<^verbatim>\<open>-\<close>, \<^verbatim>\<open>.\<close>, \<^verbatim>\<open>_\<close>, \<^verbatim>\<open>~\<close>) standing for themselves.
\<close>

definition utf8_bytes :: "nat \<Rightarrow> nat list" where
  "utf8_bytes c =
     (if c < 128 then [c]
      else if c < 2048 then [192 + c div 64, 128 + c mod 64]
      else if c < 65536 then [224 + c div 4096, 128 + (c div 64) mod 64, 128 + c mod 64]
      else [240 + c div 262144, 128 + (c div 4096) mod 64, 128 + (c div 64) mod 64,
            128 + c mod 64])"

definition hex_digit :: "nat \<Rightarrow> nat" where
  "hex_digit d = (if d < 10 then 48 + d else 55 + d)"

definition percent_byte :: "nat \<Rightarrow> pystr" where
  "percent_byte b = [37, hex_digit (b div 16), hex_digit (b mod 16)]"

definition is_unreserved :: "nat \<Rightarrow> bool" where
  "is_unreserved c =
     ((65 \<le> c \<and> c \<le> 90) \<or> (97 \<le> c \<and> c \<le> 122) \<or> (48 \<le> c \<and> c \<le> 57)
      \<or> c = 45 \<or> c = 46 \<or> c = 95 \<or> c = 126)"

definition spec_url_encoded :: "pystr \<Rightarrow> pystr" where
  "spec_url_encoded name =
     concat (map (\<lambda>c. if is_unreserved c then [c] else concat (map percent_byte (utf8_bytes c)))
       name)"

section \<open>Catalog matcher\<close>

text \<open>
  \<open>similarity\<close>: \<^verbatim>\<open>SequenceMatcher(None, a.lower(), b.lower()).ratio()\<close>. The ratio of
  \<^verbatim>\<open>difflib\<close> is the parameter \<open>ratio\<close>; the score arithmetic is exact, on rationals.
  \<^verbatim>\<open>.lower()\<close> on a value that is not a string raises (\<open>None\<close>).
\<close>

definition similarity ::
  "(pystr \<Rightarrow> pystr) \<Rightarrow> (pystr \<Rightarrow> pystr \<Rightarrow> rat) \<Rightarrow> pyval \<Rightarrow> pyval \<Rightarrow> rat option" where
  "similarity lower ratio a b =
     (case a of
        PStr x \<Rightarrow> (case b of PStr y \<Rightarrow> Some (ratio (lower x) (lower y)) | _ \<Rightarrow> None)
      | _ \<Rightarrow> None)"

text \<open>
  The body of the loop for one hit \<open>h\<close>: its score, or \<open>None\<close> when an exception is raised
  (\<open>h\<close> is not a dictionary, or the name or the title is not a string).
\<close>

definition hit_score ::
  "(pystr \<Rightarrow> pystr) \<Rightarrow> (pystr \<Rightarrow> pystr \<Rightarrow> rat) \<Rightarrow> pydict \<Rightarrow> pyval \<Rightarrow> rat option" where
  "hit_score lower ratio meta h =
     (case h of
        PDict hit \<Rightarrow>
          (case similarity lower ratio (dget_default meta (pys ''name'') (PStr []))
                  (dget_default hit (pys ''title'') (PStr [])) of
             None \<Rightarrow> None
           | Some sim \<Rightarrow>
               Some ((if truthy (dget meta (pys ''id''))
                        \<and> py_eq (dget hit (pys ''slug'')) (dget meta (pys ''id''))
                      then 100 else 0) + sim * 50))
      | _ \<Rightarrow> None)"

text \<open>
  A hit whose score is defined and lies strictly below, respectively not above, a bound.
\<close>

definition scored_below ::
  "(pystr \<Rightarrow> pystr) \<Rightarrow> (pystr \<Rightarrow> pystr \<Rightarrow> rat) \<Rightarrow> pydict \<Rightarrow> rat \<Rightarrow> pyval \<Rightarrow> bool" where
  "scored_below lower ratio meta s x =
     (case hit_score lower ratio meta x of None \<Rightarrow> False | Some sx \<Rightarrow> sx < s)"

definition scored_upto ::
  "(pystr \<Rightarrow> pystr) \<Rightarrow> (pystr \<Rightarrow> pystr \<Rightarrow> rat) \<Rightarrow> pydict \<Rightarrow> rat \<Rightarrow> pyval \<Rightarrow> bool" where
  "scored_upto lower ratio meta s x =
     (case hit_score lower ratio meta x of None \<Rightarrow> False | Some sx \<Rightarrow> sx \<le> s)"

text \<open>
  The loop over the hits, with the pair \<open>(best, best_score)\<close> as its state; \<open>None\<close> when a
  hit raises.
\<close>

fun score_hits ::
  "(pystr \<Rightarrow> pystr) \<Rightarrow> (pystr \<Rightarrow> pystr \<Rightarrow> rat) \<Rightarrow> pydict \<Rightarrow> pyval option \<times> rat \<Rightarrow> pyval list
     \<Rightarrow> (pyval option \<times> rat) option" where
  "score_hits lower ratio meta st [] = Some st"
| "score_hits lower ratio meta st (h # hs) =
     (case hit_score lower ratio meta h of
        None \<Rightarrow> None
      | Some score \<Rightarrow>
          score_hits lower ratio meta (if score > snd st then (Some h, score) else st) hs)"

text \<open>
  What \<^verbatim>\<open>for h in hits\<close> iterates over: the elements of a list, the keys of a dictionary,
  the characters of a string; any other value is not iterable (\<open>None\<close>).
\<close>

fun iter_items :: "pyval \<Rightarrow> pyval list option" where
  "iter_items (PList xs) = Some xs"
| "iter_items (PDict d) = Some (map PStr (remdups (map fst d)))"
| "iter_items (PStr s) = Some (map (\<lambda>c. PStr [c]) s)"
| "iter_items v = None"

text \<open>
  The format field of an f-string: a string stands for itself; the text of any other value
  is given by the parameter \<open>other\<close>.
\<close>

definition py_format :: "(pyval \<Rightarrow> pystr) \<Rightarrow> pyval \<Rightarrow> pystr" where
  "py_format other v = (case v of PStr s \<Rightarrow> s | _ \<Rightarrow> other v)"

text \<open>
  The outcome of the search request: \<open>NoResponse\<close> when \<^verbatim>\<open>session.get\<close> raises (timeout,
  transport failure), else the status and the result of \<^verbatim>\<open>r.json()\<close> (\<open>None\<close> when it
  raises).
\<close>

datatype response = NoResponse | Response int "pyval option"

definition accept_best :: "(pyval \<Rightarrow> pystr) \<Rightarrow> pyval option \<times> rat \<Rightarrow> pystr option" where
  "accept_best other st =
     (if snd st \<ge> 60 then
        (case fst st of
           Some (PDict best) \<Rightarrow>
             (case map_of best (pys ''slug'') of
                None \<Rightarrow> None
              | Some v \<Rightarrow> Some (pys ''https://modrinth.com/mod/'' @ py_format other v))
         | _ \<Rightarrow> None)
      else None)"

text \<open>\<open>modrinth_link\<close>; every exception inside the \<^verbatim>\<open>try\<close> ends in \<^verbatim>\<open>return None\<close>.\<close>

definition modrinth_link ::
  "(pystr \<Rightarrow> pystr) \<Rightarrow> (pystr \<Rightarrow> pystr \<Rightarrow> rat) \<Rightarrow> (pyval \<Rightarrow> pystr) \<Rightarrow> pydict \<Rightarrow> response
     \<Rightarrow> pystr option" where
  "modrinth_link lower ratio other meta resp =
     (if \<not> truthy (py_or (dget meta (pys ''id'')) (dget meta (pys ''name''))) then None
      else
        (case resp of
           NoResponse \<Rightarrow> None
         | Response status body \<Rightarrow>
             if status \<noteq> 200 then None
             else
               (case body of
                  Some (PDict data) \<Rightarrow>
                    (case iter_items (dget_default data (pys ''hits'') (PList [])) of
                       None \<Rightarrow> None
                     | Some hits \<Rightarrow>
                         (case score_hits lower ratio meta (None, 0) hits of
                            None \<Rightarrow> None
                          | Some st \<Rightarrow> accept_best other st))
                | _ \<Rightarrow> None)))"

text \<open>
  A hit of the shape the search interface promises: a dictionary whose title, when it has
  one, is a string.
\<close>

definition titled_hit :: "pyval \<Rightarrow> bool" where
  "titled_hit h =
     (case h of
        PDict hit \<Rightarrow>
          (case dget_default hit (pys ''title'') (PStr []) of PStr t \<Rightarrow> True | _ \<Rightarrow> False)
      | _ \<Rightarrow> False)"

text \<open>
  A similarity ratio for concrete inputs: 1 on equal strings and 0 otherwise; it agrees
  with \<^verbatim>\<open>ratio()\<close> on equal strings and on strings without a common character.
\<close>

definition eq_ratio :: "pystr \<Rightarrow> pystr \<Rightarrow> rat" where
  "eq_ratio a b = (if a = b then 1 else 0)"

section \<open>Orchestrator\<close>





























section \<open>The worker budget\<close>

text \<open>
  \<^verbatim>\<open>sem = asyncio.Semaphore(self.max_threads)\<close> is shared by all tasks, and the whole body of
  a task is inside \<^verbatim>\<open>async with sem\<close>. A task is queued until it acquires the semaphore,
  holds a slot from then on (also while it awaits the search request), and has released
  it when its body is left, normally or by an exception. Acquiring needs a positive
  counter and decrements it; releasing increments it.
\<close>

datatype task_phase = Queued | Holding | Released

record sched =
  sem_value :: nat
  phases :: "task_phase list"

inductive sched_step :: "sched \<Rightarrow> sched \<Rightarrow> bool" where
  acquire: "i < length (phases s) \<Longrightarrow> phases s ! i = Queued \<Longrightarrow> 0 < sem_value s \<Longrightarrow>
     sched_step s \<lparr>sem_value = sem_value s - 1, phases = (phases s)[i := Holding]\<rparr>"
| release: "i < length (phases s) \<Longrightarrow> phases s ! i = Holding \<Longrightarrow>
     sched_step s \<lparr>sem_value = sem_value s + 1, phases = (phases s)[i := Released]\<rparr>"

text \<open>The states a run with budget \<open>n\<close> and \<open>m\<close> archives can reach.\<close>

inductive reachable :: "nat \<Rightarrow> nat \<Rightarrow> sched \<Rightarrow> bool" where
  start: "reachable n m \<lparr>sem_value = n, phases = replicate m Queued\<rparr>"
| step: "reachable n m s \<Longrightarrow> sched_step s s' \<Longrightarrow> reachable n m s'"

definition holders :: "sched \<Rightarrow> nat" where
  "holders s = length (filter (\<lambda>p. p = Holding) (phases s))"

section \<open>Facts about the string operations\<close>


lemma py_eq_str: "py_eq x (PStr s) \<longleftrightarrow> x = PStr s"
  by (cases x) auto

lemma forge_scan_iff:
  "forge_scan lower flag ls \<longleftrightarrow>
     flag \<or> (\<exists>line \<in> set ls. py_in (pys ''clientOnly'') line \<and> py_in (pys ''true'') (lower line))"
  by (induction ls arbitrary: flag) auto

lemma endswith_last: "endswith s suffix \<Longrightarrow> suffix \<noteq> [] \<Longrightarrow> last s = last suffix"
proof -
  assume a: "endswith s suffix" and b: "suffix \<noteq> []"
  have "s = take (length s - length suffix) s @ suffix"
    using a by (metis append_take_drop_id endswith_def)
  then show ?thesis using b by (metis last_appendR)
qed

lemma forge_name_not_fabric:
  "endswith n (pys ''mods.toml'') \<Longrightarrow> \<not> endswith n (pys ''fabric.mod.json'')"
proof
  assume a: "endswith n (pys ''mods.toml'')" and b: "endswith n (pys ''fabric.mod.json'')"
  have "last n = last (pys ''mods.toml'')" using a by (rule endswith_last) simp
  moreover have "last n = last (pys ''fabric.mod.json'')" using b by (rule endswith_last) simp
  ultimately show False by simp
qed

lemma scan_entries_skip:
  "\<forall>e \<in> set pre. \<not> endswith (filename e) (pys ''fabric.mod.json'')
        \<and> \<not> endswith (filename e) (pys ''mods.toml'') \<Longrightarrow>
   scan_entries json_loads lower stem (pre @ rest) = scan_entries json_loads lower stem rest"
  by (induction pre) simp_all

lemma score_hits_result:
  "score_hits lower ratio meta (b, s0) hs = Some (b', s') \<Longrightarrow>
     (b' = b \<and> s' = s0 \<and> list_all (scored_upto lower ratio meta s0) hs)
     \<or> (\<exists>pre h post. hs = pre @ h # post \<and> b' = Some h
          \<and> hit_score lower ratio meta h = Some s' \<and> s0 < s'
          \<and> list_all (scored_below lower ratio meta s') pre
          \<and> list_all (scored_upto lower ratio meta s') post)"
proof (induction hs arbitrary: b s0)
  case Nil
  then show ?case by simp
next
  case (Cons h hs)
  from Cons.prems obtain sc where sc: "hit_score lower ratio meta h = Some sc"
    by (cases "hit_score lower ratio meta h") auto
  show ?case
  proof (cases "sc > s0")
    case True
    with Cons.prems sc have run: "score_hits lower ratio meta (Some h, sc) hs = Some (b', s')"
      by simp
    from Cons.IH [OF run] show ?thesis
    proof (elim disjE exE conjE)
      assume u: "b' = Some h" "s' = sc" "list_all (scored_upto lower ratio meta sc) hs"
      have "h # hs = [] @ h # hs \<and> b' = Some h \<and> hit_score lower ratio meta h = Some s'
          \<and> s0 < s' \<and> list_all (scored_below lower ratio meta s') []
          \<and> list_all (scored_upto lower ratio meta s') hs"
        using u sc True by simp
      then show ?thesis by blast
    next
      fix pre k post
      assume c: "hs = pre @ k # post" "b' = Some k"
          "hit_score lower ratio meta k = Some s'" "sc < s'"
          "list_all (scored_below lower ratio meta s') pre"
          "list_all (scored_upto lower ratio meta s') post"
      have "h # hs = (h # pre) @ k # post \<and> b' = Some k
          \<and> hit_score lower ratio meta k = Some s' \<and> s0 < s'
          \<and> list_all (scored_below lower ratio meta s') (h # pre)
          \<and> list_all (scored_upto lower ratio meta s') post"
        using c sc True by (simp add: scored_below_def)
      then show ?thesis by blast
    qed
  next
    case False
    with Cons.prems sc have run: "score_hits lower ratio meta (b, s0) hs = Some (b', s')"
      by simp
    from Cons.IH [OF run] show ?thesis
    proof (elim disjE exE conjE)
      assume u: "b' = b" "s' = s0" "list_all (scored_upto lower ratio meta s0) hs"
      have "scored_upto lower ratio meta s0 h"
        using sc False by (simp add: scored_upto_def)
      with u show ?thesis by simp
    next
      fix pre k post
      assume c: "hs = pre @ k # post" "b' = Some k"
          "hit_score lower ratio meta k = Some s'" "s0 < s'"
          "list_all (scored_below lower ratio meta s') pre"
          "list_all (scored_upto lower ratio meta s') post"
      have "h # hs = (h # pre) @ k # post \<and> b' = Some k
          \<and> hit_score lower ratio meta k = Some s' \<and> s0 < s'
          \<and> list_all (scored_below lower ratio meta s') (h # pre)
          \<and> list_all (scored_upto lower ratio meta s') post"
        using c sc False by (simp add: scored_below_def)
      then show ?thesis by blast
    qed
  qed
qed

lemma score_hits_defined:
  "list_all (\<lambda>x. hit_score lower ratio meta x \<noteq> None) hs \<Longrightarrow>
     \<exists>r. score_hits lower ratio meta st hs = Some r"
  by (induction hs arbitrary: st) auto

lemma hit_score_titled:
  assumes "dget_default meta (pys ''name'') (PStr []) = PStr nm" and "titled_hit h"
  shows "\<exists>hit t. h = PDict hit \<and> dget_default hit (pys ''title'') (PStr []) = PStr t
     \<and> hit_score lower ratio meta h =
        Some ((if truthy (dget meta (pys ''id''))
                  \<and> py_eq (dget hit (pys ''slug'')) (dget meta (pys ''id''))
               then 100 else 0) + ratio (lower nm) (lower t) * 50)"
proof -
  from assms(2) obtain hit where h: "h = PDict hit"
    by (cases h) (auto simp: titled_hit_def)
  from assms(2) h obtain t where t: "dget_default hit (pys ''title'') (PStr []) = PStr t"
    by (cases "dget_default hit (pys ''title'') (PStr [])") (auto simp: titled_hit_def)
  show ?thesis
    using h t assms(1) by (simp add: hit_score_def similarity_def)
qed

lemma accept_best_Some:
  "accept_best other (b, s) = Some url \<Longrightarrow>
     60 \<le> s \<and> (\<exists>best v. b = Some (PDict best) \<and> map_of best (pys ''slug'') = Some v
        \<and> url = pys ''https://modrinth.com/mod/'' @ py_format other v)"
  by (auto simp: accept_best_def split: if_splits option.splits pyval.splits)

lemma modrinth_link_Some:
  "modrinth_link lower ratio other meta resp = Some url \<Longrightarrow>
     \<exists>data hs st. resp = Response 200 (Some (PDict data))
       \<and> iter_items (dget_default data (pys ''hits'') (PList [])) = Some hs
       \<and> score_hits lower ratio meta (None, 0) hs = Some st
       \<and> accept_best other st = Some url"
  unfolding modrinth_link_def
  by (auto split: if_splits response.splits option.splits pyval.splits)

lemma list_all_upto_mem:
  "list_all (scored_upto lower ratio meta s) xs \<Longrightarrow> x \<in> set xs \<Longrightarrow>
     hit_score lower ratio meta x = Some sx \<Longrightarrow> sx \<le> s"
  by (auto simp: list_all_iff scored_upto_def)

lemma list_all_below_mem:
  "list_all (scored_below lower ratio meta s) xs \<Longrightarrow> x \<in> set xs \<Longrightarrow>
     hit_score lower ratio meta x = Some sx \<Longrightarrow> sx < s"
  by (auto simp: list_all_iff scored_below_def)

lemma filter_update_count:
  "i < length xs \<Longrightarrow>
     length (filter P (xs[i := y])) + (if P (xs ! i) then 1 else 0)
       = length (filter P xs) + (if P y then 1 else 0)"
proof (induction xs arbitrary: i)
  case Nil
  then show ?case by simp
next
  case (Cons x xs)
  then show ?case by (cases i) auto
qed

lemma sched_step_invariant:
  assumes "sched_step s s'" and "holders s + sem_value s = n"
  shows "holders s' + sem_value s' = n \<and> length (phases s') = length (phases s)"
  using assms
proof (cases rule: sched_step.cases)
  case (acquire i)
  from filter_update_count [OF acquire(2), of "\<lambda>p. p = Holding" Holding] acquire(3)
  have "holders s' = holders s + 1" using acquire(1) by (simp add: holders_def)
  with acquire assms(2) show ?thesis by simp
next
  case (release i)
  from filter_update_count [OF release(2), of "\<lambda>p. p = Holding" Released] release(3)
  have "holders s' + 1 = holders s" using release(1) by (simp add: holders_def)
  with release assms(2) show ?thesis by simp
qed

































lemma first_boundary_unique:
  "\<forall>c \<in> set xs. \<not> P c \<Longrightarrow> P x \<Longrightarrow> \<forall>c \<in> set ys. \<not> P c \<Longrightarrow> P y \<Longrightarrow>
     xs @ x # xs' = ys @ y # ys' \<Longrightarrow> xs = ys \<and> x = y \<and> xs' = ys'"
proof (induction xs arbitrary: ys)
  case Nil
  then show ?case by (cases ys) auto
next
  case (Cons a xs)
  then show ?case by (cases ys) auto
qed

lemma text_line_no_boundary:
  assumes "no_linebreak t" and "l \<noteq> []"
  shows "text_line t l \<longleftrightarrow> l = t"
proof
  assume "text_line t l"
  then obtain p q where d: "t = p @ l @ q" "p = [] \<or> is_linebreak (last p)"
      "q = [] \<or> is_linebreak (hd q)"
    by (auto simp: text_line_def)
  have "p = []"
  proof (rule ccontr)
    assume n: "p \<noteq> []"
    then have "last p \<in> set t" using d(1) by simp
    with assms(1) d(2) n show False by (auto simp: no_linebreak_def)
  qed
  moreover have "q = []"
  proof (rule ccontr)
    assume n: "q \<noteq> []"
    then have "hd q \<in> set t" using d(1) by simp
    with assms(1) d(3) n show False by (auto simp: no_linebreak_def)
  qed
  ultimately show "l = t" using d(1) by simp
next
  assume "l = t"
  then have "t = [] @ l @ []" by simp
  with assms \<open>l = t\<close> show "text_line t l"
    unfolding text_line_def by blast
qed

lemma text_line_after_boundary:
  assumes a: "no_linebreak a" and b: "is_linebreak b" and l: "l \<noteq> []"
  shows "text_line (a @ b # rest) l \<longleftrightarrow> l = a \<or> text_line rest l"
proof
  assume "text_line (a @ b # rest) l"
  then obtain p q where nl: "no_linebreak l" and d: "a @ b # rest = p @ l @ q"
      "p = [] \<or> is_linebreak (last p)" "q = [] \<or> is_linebreak (hd q)"
    by (auto simp: text_line_def)
  show "l = a \<or> text_line rest l"
  proof (cases "p = []")
    case True
    have "q \<noteq> []"
    proof
      assume "q = []"
      with True d(1) have "b \<in> set l" by (metis append_Nil append_Nil2 in_set_conv_decomp)
      with nl b show False by (auto simp: no_linebreak_def)
    qed
    then obtain h q' where q: "q = h # q'" by (cases q) auto
    with d(3) have h: "is_linebreak h" by simp
    from True d(1) q have "l @ h # q' = a @ b # rest" by simp
    from first_boundary_unique [OF _ h _ b this] nl a have "l = a"
      by (auto simp: no_linebreak_def)
    then show ?thesis by simp
  next
    case False
    with d(2) have "\<exists>c \<in> set p. is_linebreak c" using last_in_set by blast
    from split_list_first_prop [OF this] obtain p1 x p2 where
      p: "p = p1 @ x # p2" "is_linebreak x" "\<forall>c \<in> set p1. \<not> is_linebreak c" by blast
    from d(1) p(1) have "p1 @ x # (p2 @ l @ q) = a @ b # rest" by simp
    from first_boundary_unique [OF p(3) p(2) _ b this] a
    have r: "rest = p2 @ l @ q" by (auto simp: no_linebreak_def)
    have "p2 = [] \<or> is_linebreak (last p2)"
      using d(2) False p(1) by (cases "p2 = []") auto
    with r nl l d(3) have "text_line rest l" unfolding text_line_def by blast
    then show ?thesis by simp
  qed
next
  assume "l = a \<or> text_line rest l"
  then show "text_line (a @ b # rest) l"
  proof
    assume "l = a"
    then have "a @ b # rest = [] @ l @ (b # rest)" by simp
    moreover have "is_linebreak (hd (b # rest))" using b by simp
    ultimately show ?thesis using a l \<open>l = a\<close> unfolding text_line_def by blast
  next
    assume "text_line rest l"
    then obtain p q where nl: "no_linebreak l" and d: "rest = p @ l @ q"
        "p = [] \<or> is_linebreak (last p)" "q = [] \<or> is_linebreak (hd q)"
      by (auto simp: text_line_def)
    have e: "a @ b # rest = (a @ b # p) @ l @ q" using d(1) by simp
    have "is_linebreak (last (a @ b # p))" using b d(2) by (cases "p = []") auto
    with e nl l d(3) show ?thesis unfolding text_line_def by blast
  qed
qed

lemma splitlines_from_lines:
  "no_linebreak cur \<Longrightarrow> l \<noteq> [] \<Longrightarrow>
     l \<in> set (splitlines_from cur s) \<longleftrightarrow> text_line (rev cur @ s) l"
proof (induction cur s rule: splitlines_from.induct)
  case (1 cur)
  have "no_linebreak (rev cur)" using "1.prems"(1) by (simp add: no_linebreak_def)
  from text_line_no_boundary [OF this "1.prems"(2)] "1.prems"(2) show ?case by auto
next
  case (2 cur c cs)
  have nc: "no_linebreak (rev cur)" using "2.prems"(1) by (simp add: no_linebreak_def)
  have nil: "no_linebreak []" by (simp add: no_linebreak_def)
  show ?case
  proof (cases "c = 13")
    case True
    then have lb: "is_linebreak c" by (simp add: is_linebreak_def)
    show ?thesis
    proof (cases cs)
      case Nil
      have "\<not> text_line [] l" using "2.prems"(2) by (simp add: text_line_def)
      with text_line_after_boundary [OF nc lb "2.prems"(2), of "[]"] True Nil show ?thesis
        by auto
    next
      case (Cons d ds)
      show ?thesis
      proof (cases "d = 10")
        case d: True
        then have lbd: "is_linebreak d" by (simp add: is_linebreak_def)
        from "2.IH"(1) [OF True Cons d nil "2.prems"(2)]
        have ih: "l \<in> set (splitlines_from [] ds) \<longleftrightarrow> text_line ds l" by simp
        from text_line_after_boundary [OF nil lbd "2.prems"(2), of ds] "2.prems"(2)
        have "text_line (d # ds) l \<longleftrightarrow> text_line ds l" by auto
        with text_line_after_boundary [OF nc lb "2.prems"(2), of "d # ds"] ih True Cons d
        show ?thesis by auto
      next
        case d: False
        from "2.IH"(2) [OF True Cons d nil "2.prems"(2)]
        have ih: "l \<in> set (splitlines_from [] (d # ds)) \<longleftrightarrow> text_line (d # ds) l" by simp
        with text_line_after_boundary [OF nc lb "2.prems"(2), of "d # ds"] True Cons d
        show ?thesis by auto
      qed
    qed
  next
    case False
    show ?thesis
    proof (cases "is_linebreak c")
      case lb: True
      from "2.IH"(3) [OF False lb nil "2.prems"(2)]
      have ih: "l \<in> set (splitlines_from [] cs) \<longleftrightarrow> text_line cs l" by simp
      with text_line_after_boundary [OF nc lb "2.prems"(2), of cs] False lb show ?thesis by auto
    next
      case lb: False
      have "no_linebreak (c # cur)" using "2.prems"(1) lb by (simp add: no_linebreak_def)
      from "2.IH"(4) [OF False lb this "2.prems"(2)] False lb show ?thesis by simp
    qed
  qed
qed

lemma splitlines_lines: "l \<noteq> [] \<Longrightarrow> l \<in> set (splitlines text) \<longleftrightarrow> text_line text l"
  using splitlines_from_lines [of "[]" l "text"] by (simp add: splitlines_def no_linebreak_def)

section \<open>Side classification\<close>

text \<open>
  C2, as stated: a loader value that is neither Fabric nor Forge is classified as parse
  failed. It fails for a loader value that is present but unrecognised, here
  \<^verbatim>\<open>{"loader": "quilt"}\<close>: \<open>classify\<close> reaches its last \<^verbatim>\<open>return\<close> and answers server side.
\<close>

theorem classify_unrecognised_loader_counterexample:
  "\<not> py_eq (dget [(pys ''loader'', PStr (pys ''quilt''))] (pys ''loader'')) (PStr (pys ''fabric''))
   \<and> \<not> py_eq (dget [(pys ''loader'', PStr (pys ''quilt''))] (pys ''loader'')) (PStr (pys ''forge''))
   \<and> classify (Some [(pys ''loader'', PStr (pys ''quilt''))]) \<noteq> cat_failed
   \<and> classify (Some [(pys ''loader'', PStr (pys ''quilt''))]) = cat_server"
  by (simp add: classify_def dget_def cat_failed_def cat_server_def)

text \<open>
  C2, amended: without metadata, or with a loader that is \<^verbatim>\<open>None\<close> or absent, \<open>classify\<close>
  answers parse failed, never server side or client only; with a loader value that is
  present but is neither \<^verbatim>\<open>"fabric"\<close> nor \<^verbatim>\<open>"forge"\<close> it answers server side.
\<close>

theorem classify_unknown_loader:
  "classify None = cat_failed
   \<and> (dget m (pys ''loader'') = PNone \<longrightarrow>
        classify (Some m) = cat_failed \<and> classify (Some m) \<noteq> cat_server
        \<and> classify (Some m) \<noteq> cat_client)
   \<and> (dget m (pys ''loader'') \<noteq> PNone \<and> dget m (pys ''loader'') \<noteq> PStr (pys ''fabric'')
        \<and> dget m (pys ''loader'') \<noteq> PStr (pys ''forge'') \<longrightarrow>
        classify (Some m) = cat_server)"
proof -
  have "m \<noteq> []" if "dget m (pys ''loader'') \<noteq> PNone"
    using that by (auto simp: dget_def)
  then show ?thesis
    by (auto simp: classify_def py_eq_str cat_failed_def cat_server_def cat_client_def)
qed

theorem classify_unknown_loader_witness:
  "dget (unknown_meta (pys ''a'')) (pys ''loader'') = PNone
   \<and> classify (Some (unknown_meta (pys ''a''))) = cat_failed
   \<and> classify (Some (unknown_meta (pys ''a''))) \<noteq> cat_server
   \<and> classify (Some (unknown_meta (pys ''a''))) \<noteq> cat_client
   \<and> dget [(pys ''loader'', PStr (pys ''neoforge''))] (pys ''loader'') \<noteq> PNone
   \<and> classify (Some [(pys ''loader'', PStr (pys ''neoforge''))]) = cat_server"
proof -
  have h: "dget (unknown_meta (pys ''a'')) (pys ''loader'') = PNone"
    by (simp add: dget_def unknown_meta_def)
  have k: "dget [(pys ''loader'', PStr (pys ''neoforge''))] (pys ''loader'') \<noteq> PNone
      \<and> dget [(pys ''loader'', PStr (pys ''neoforge''))] (pys ''loader'') \<noteq> PStr (pys ''fabric'')
      \<and> dget [(pys ''loader'', PStr (pys ''neoforge''))] (pys ''loader'') \<noteq> PStr (pys ''forge'')"
    by (simp add: dget_def)
  note t1 = classify_unknown_loader [where m = "unknown_meta (pys ''a'')",
      THEN conjunct2, THEN conjunct1, THEN mp, OF h]
  note t2 = classify_unknown_loader [where m = "[(pys ''loader'', PStr (pys ''neoforge''))]",
      THEN conjunct2, THEN conjunct2, THEN mp, OF k]
  from h t1 k [THEN conjunct1] t2 show ?thesis by blast
qed

text \<open>
  C7: for the metadata that \<open>parse_forge\<close> builds from a manifest text, \<open>classify\<close> answers
  client only exactly when some line of the text contains \<^verbatim>\<open>clientOnly\<close> and its
  lower-cased form contains \<^verbatim>\<open>true\<close>; when no line does, it answers server side. A line
  is a non-empty stretch of the text between two line boundaries (or the ends of the text)
  that contains no boundary, and these are the non-empty elements of \<open>splitlines\<close>.
\<close>

theorem classify_forge:
  "(classify (Some (parse_forge lower manifest jar)) = cat_client \<longleftrightarrow>
      (\<exists>line. text_line manifest line
          \<and> py_in (pys ''clientOnly'') line \<and> py_in (pys ''true'') (lower line)))
   \<and> (\<not> (\<exists>line. text_line manifest line
          \<and> py_in (pys ''clientOnly'') line \<and> py_in (pys ''true'') (lower line)) \<longrightarrow>
        classify (Some (parse_forge lower manifest jar)) = cat_server)
   \<and> (\<forall>l. l \<noteq> [] \<longrightarrow> (l \<in> set (splitlines manifest) \<longleftrightarrow> text_line manifest l))"
proof -
  define E where "E \<longleftrightarrow> (\<exists>line. text_line manifest line
          \<and> py_in (pys ''clientOnly'') line \<and> py_in (pys ''true'') (lower line))"
  define scan where "scan = forge_scan lower False (splitlines manifest)"
  have c: "classify (Some (parse_forge lower manifest jar)) =
      (if scan then cat_client else cat_server)"
    by (simp add: classify_def parse_forge_def dget_def scan_def)
  have d: "cat_client \<noteq> cat_server"
    by (simp add: cat_client_def cat_server_def)
  have ne: "line \<noteq> []" if "py_in (pys ''clientOnly'') line" for line
    using that by (cases line) auto
  have f0: "scan \<longleftrightarrow> (\<exists>line \<in> set (splitlines manifest).
          py_in (pys ''clientOnly'') line \<and> py_in (pys ''true'') (lower line))"
    unfolding scan_def by (simp add: forge_scan_iff)
  have e: "(\<exists>line \<in> set (splitlines manifest).
          py_in (pys ''clientOnly'') line \<and> py_in (pys ''true'') (lower line)) \<longleftrightarrow> E"
    unfolding E_def using ne splitlines_lines by blast
  from f0 e have f: "scan \<longleftrightarrow> E" by (rule trans)
  have g: "\<forall>l. l \<noteq> [] \<longrightarrow> (l \<in> set (splitlines manifest) \<longleftrightarrow> text_line manifest l)"
    using splitlines_lines by blast
  have h: "classify (Some (parse_forge lower manifest jar)) = cat_client \<longleftrightarrow> E"
    using c d f by (cases scan) simp_all
  have i: "\<not> E \<longrightarrow> classify (Some (parse_forge lower manifest jar)) = cat_server"
    using c f by simp
  from h i g show ?thesis unfolding E_def by (intro conjI)
qed

theorem classify_forge_witness:
  "text_line (pys ''[[mods]]'' @ [10] @ pys ''clientOnly = TRUE'' @ [10]) (pys ''clientOnly = TRUE'')
   \<and> classify (Some (parse_forge ascii_lower
        (pys ''[[mods]]'' @ [10] @ pys ''clientOnly = TRUE'' @ [10]) (PStr (pys ''m'')))) = cat_client
   \<and> splitlines (pys ''clientOnly='' @ [10] @ pys ''true'') = [pys ''clientOnly='', pys ''true'']
   \<and> classify (Some (parse_forge ascii_lower
        (pys ''clientOnly='' @ [10] @ pys ''true'') (PStr (pys ''m'')))) = cat_server"
proof -
  let ?t1 = "pys ''[[mods]]'' @ [10] @ pys ''clientOnly = TRUE'' @ [10]"
  let ?l1 = "pys ''clientOnly = TRUE''"
  let ?t2 = "pys ''clientOnly='' @ [10] @ pys ''true''"
  have "?t1 = (pys ''[[mods]]'' @ [10]) @ ?l1 @ [10]
      \<and> ((pys ''[[mods]]'' @ [10]) = [] \<or> is_linebreak (last (pys ''[[mods]]'' @ [10])))
      \<and> ([10] = [] \<or> is_linebreak (hd [10]))"
    by (simp add: is_linebreak_def)
  then have "\<exists>p q. ?t1 = p @ ?l1 @ q \<and> (p = [] \<or> is_linebreak (last p))
      \<and> (q = [] \<or> is_linebreak (hd q))"
    by blast
  moreover have "?l1 \<noteq> [] \<and> no_linebreak ?l1"
    by (simp add: no_linebreak_def is_linebreak_def)
  ultimately have a: "text_line ?t1 ?l1" unfolding text_line_def by blast
  have "py_in (pys ''clientOnly'') ?l1 \<and> py_in (pys ''true'') (ascii_lower ?l1)"
    by (simp add: ascii_lower_def)
  with a have h1: "\<exists>line. text_line ?t1 line
      \<and> py_in (pys ''clientOnly'') line \<and> py_in (pys ''true'') (ascii_lower line)"
    by blast
  note t1 = classify_forge [where lower = ascii_lower and manifest = ?t1
      and jar = "PStr (pys ''m'')", THEN conjunct1]
  from t1 h1 have b: "classify (Some (parse_forge ascii_lower ?t1 (PStr (pys ''m'')))) = cat_client"
    by (rule iffD2)
  have s: "splitlines ?t2 = [pys ''clientOnly='', pys ''true'']"
    by (simp add: splitlines_def is_linebreak_def)
  note t2 = classify_forge [where lower = ascii_lower and manifest = ?t2
      and jar = "PStr (pys ''m'')"]
  have h2: "\<not> (\<exists>line. text_line ?t2 line
      \<and> py_in (pys ''clientOnly'') line \<and> py_in (pys ''true'') (ascii_lower line))"
  proof
    assume "\<exists>line. text_line ?t2 line
      \<and> py_in (pys ''clientOnly'') line \<and> py_in (pys ''true'') (ascii_lower line)"
    then obtain line where l: "text_line ?t2 line" "py_in (pys ''clientOnly'') line"
      "py_in (pys ''true'') (ascii_lower line)" by blast
    from l(1) have "line \<noteq> []" by (simp add: text_line_def)
    with t2 [THEN conjunct2, THEN conjunct2] l(1) have "line \<in> set (splitlines ?t2)" by blast
    with s have "line = pys ''clientOnly='' \<or> line = pys ''true''" by simp
    with l(2,3) show False by (auto simp: ascii_lower_def)
  qed
  from t2 [THEN conjunct2, THEN conjunct1] h2
  have c: "classify (Some (parse_forge ascii_lower ?t2 (PStr (pys ''m'')))) = cat_server"
    by (rule mp)
  from a b s c show ?thesis by (intro conjI)
qed

section \<open>The Forge manifest reader\<close>

text \<open>
  C9, as stated: an archive whose matched manifest entry is a Forge manifest is never
  classified as parse failed. It fails for an archive whose \<^verbatim>\<open>mods.toml\<close> entry cannot be
  read (a bad checksum): the exception of \<^verbatim>\<open>z.read\<close> reaches the handler of
  \<open>read_metadata\<close>, which answers with an unknown loader.
\<close>

theorem unreadable_forge_manifest_counterexample:
  "endswith (pys ''META-INF/mods.toml'') (pys ''mods.toml'')
   \<and> read_metadata (\<lambda>t. None) ascii_lower
        \<lparr>jar_name = pys ''m.jar'', jar_stem = pys ''m'',
         jar_zip = Archive [ZEntry (pys ''META-INF/mods.toml'') (Inl (pys ''Bad CRC-32''))]\<rparr>
      = (Some (unknown_meta (pys ''m'')), Some (pys ''Bad CRC-32''))
   \<and> classify (fst (read_metadata (\<lambda>t. None) ascii_lower
        \<lparr>jar_name = pys ''m.jar'', jar_stem = pys ''m'',
         jar_zip = Archive [ZEntry (pys ''META-INF/mods.toml'') (Inl (pys ''Bad CRC-32''))]\<rparr>))
      = cat_failed"
  by (simp add: read_metadata_def endswith_def unknown_meta_def classify_def dget_def)

text \<open>
  C9, amended: \<open>parse_forge\<close> has no failing path and always returns a non-empty record whose
  loader is \<^verbatim>\<open>"forge"\<close>, so the \<^verbatim>\<open>mods.toml\<close> parse-failed diagnostic of \<open>read_metadata\<close> is
  never chosen; and an archive whose first manifest entry is a \<^verbatim>\<open>mods.toml\<close> entry that
  can be read is read without diagnostic and is never classified as parse failed, whatever
  the text of the entry.
\<close>

theorem forge_manifest_never_unparseable:
  assumes "jar_zip jar = Archive (pre @ ZEntry n (Inr text) # post)"
    and "\<forall>e \<in> set pre. \<not> endswith (filename e) (pys ''fabric.mod.json'')
            \<and> \<not> endswith (filename e) (pys ''mods.toml'')"
    and "endswith n (pys ''mods.toml'')"
  shows "dget (parse_forge lower text jn) (pys ''loader'') = PStr (pys ''forge'')
    \<and> parse_forge lower text jn \<noteq> []
    \<and> read_metadata json_loads lower jar
        = (Some (parse_forge lower text (PStr (jar_stem jar))), None)
    \<and> snd (read_metadata json_loads lower jar) \<noteq> Some err_forge
    \<and> classify (fst (read_metadata json_loads lower jar)) \<noteq> cat_failed"
proof -
  have l: "dget (parse_forge lower text jn) (pys ''loader'') = PStr (pys ''forge'')"
    by (simp add: parse_forge_def dget_def)
  have ne: "parse_forge lower text x \<noteq> []" for x
    by (simp add: parse_forge_def)
  have nf: "\<not> endswith n (pys ''fabric.mod.json'')"
    using assms(3) by (rule forge_name_not_fabric)
  have "scan_entries json_loads lower (jar_stem jar) (pre @ ZEntry n (Inr text) # post)
      = scan_entries json_loads lower (jar_stem jar) (ZEntry n (Inr text) # post)"
    using assms(2) by (rule scan_entries_skip)
  also have "\<dots> = Inr (Some (parse_forge lower text (PStr (jar_stem jar))), None)"
    using nf assms(3) ne by (simp add: Let_def)
  finally have r: "read_metadata json_loads lower jar
      = (Some (parse_forge lower text (PStr (jar_stem jar))), None)"
    using assms(1) by (simp add: read_metadata_def)
  have "classify (Some (parse_forge lower text (PStr (jar_stem jar)))) \<noteq> cat_failed"
    by (simp add: classify_def parse_forge_def dget_def cat_failed_def cat_client_def
        cat_server_def)
  with l ne r show ?thesis by simp
qed

theorem forge_manifest_never_unparseable_witness:
  "read_metadata (\<lambda>t. None) ascii_lower
      \<lparr>jar_name = pys ''m.jar'', jar_stem = pys ''m'',
       jar_zip = Archive [ZEntry (pys ''pack.png'') (Inl (pys ''bad'')),
                          ZEntry (pys ''META-INF/mods.toml'') (Inr (pys ''}{ not toml'')),
                          ZEntry (pys ''fabric.mod.json'') (Inr (pys ''{}''))]\<rparr>
     = (Some (parse_forge ascii_lower (pys ''}{ not toml'') (PStr (pys ''m''))), None)
   \<and> classify (fst (read_metadata (\<lambda>t. None) ascii_lower
      \<lparr>jar_name = pys ''m.jar'', jar_stem = pys ''m'',
       jar_zip = Archive [ZEntry (pys ''pack.png'') (Inl (pys ''bad'')),
                          ZEntry (pys ''META-INF/mods.toml'') (Inr (pys ''}{ not toml'')),
                          ZEntry (pys ''fabric.mod.json'') (Inr (pys ''{}''))]\<rparr>)) \<noteq> cat_failed"
proof -
  let ?jar = "\<lparr>jar_name = pys ''m.jar'', jar_stem = pys ''m'',
       jar_zip = Archive [ZEntry (pys ''pack.png'') (Inl (pys ''bad'')),
                          ZEntry (pys ''META-INF/mods.toml'') (Inr (pys ''}{ not toml'')),
                          ZEntry (pys ''fabric.mod.json'') (Inr (pys ''{}''))]\<rparr>"
  have a: "jar_zip ?jar = Archive ([ZEntry (pys ''pack.png'') (Inl (pys ''bad''))]
      @ ZEntry (pys ''META-INF/mods.toml'') (Inr (pys ''}{ not toml''))
      # [ZEntry (pys ''fabric.mod.json'') (Inr (pys ''{}''))])"
    by simp
  have b: "\<forall>e \<in> set [ZEntry (pys ''pack.png'') (Inl (pys ''bad''))].
      \<not> endswith (filename e) (pys ''fabric.mod.json'')
      \<and> \<not> endswith (filename e) (pys ''mods.toml'')"
    by (simp add: endswith_def)
  have c: "endswith (pys ''META-INF/mods.toml'') (pys ''mods.toml'')"
    by (simp add: endswith_def)
  note t = forge_manifest_never_unparseable [OF a b c, of ascii_lower PNone "\<lambda>t. None"]
  from t have r: "read_metadata (\<lambda>t. None) ascii_lower ?jar
      = (Some (parse_forge ascii_lower (pys ''}{ not toml'') (PStr (jar_stem ?jar))), None)"
    by blast
  from t have k: "classify (fst (read_metadata (\<lambda>t. None) ascii_lower ?jar)) \<noteq> cat_failed"
    by blast
  have "jar_stem ?jar = pys ''m''" by simp
  with r k show ?thesis by metis
qed

section \<open>Properties of the link builders\<close>

text \<open>
  C3, as stated: each builder returns its template instantiated with the URL-encoded
  display name. It fails at the name \<^verbatim>\<open>a b\<close>: the source inserts the name as it is, so the
  link contains the space, where the encoded name is \<^verbatim>\<open>a%20b\<close>.
\<close>

theorem link_builders_not_encoded_counterexample:
  "curseforge_link (pys ''a b'') = pys ''https://www.curseforge.com/minecraft/mc-mods/a b''
   \<and> curseforge_link (pys ''a b'')
       \<noteq> pys ''https://www.curseforge.com/minecraft/mc-mods/'' @ spec_url_encoded (pys ''a b'')
   \<and> mcmod_link (pys ''a b'') = pys ''https://search.mcmod.cn/s?key=a b''
   \<and> mcmod_link (pys ''a b'')
       \<noteq> pys ''https://search.mcmod.cn/s?key='' @ spec_url_encoded (pys ''a b'')
   \<and> spec_url_encoded (pys ''a b'') = pys ''a%20b''"
  by (simp add: curseforge_link_def mcmod_link_def spec_url_encoded_def is_unreserved_def
      utf8_bytes_def percent_byte_def hex_digit_def)

text \<open>
  C3, amended: each builder returns its fixed template followed by the display name
  exactly as given, without encoding; the link depends on the name only, so the same name
  gives the same link.
\<close>

theorem link_builders_verbatim:
  "curseforge_link name = pys ''https://www.curseforge.com/minecraft/mc-mods/'' @ name
   \<and> mcmod_link name = pys ''https://search.mcmod.cn/s?key='' @ name
   \<and> (name = name' \<longrightarrow>
        curseforge_link name = curseforge_link name' \<and> mcmod_link name = mcmod_link name')"
  by (simp add: curseforge_link_def mcmod_link_def)

theorem link_builders_verbatim_witness:
  "curseforge_link (pys ''Sodium'') = pys ''https://www.curseforge.com/minecraft/mc-mods/Sodium''
   \<and> mcmod_link (pys ''Sodium'') = pys ''https://search.mcmod.cn/s?key=Sodium''
   \<and> curseforge_link (pys ''Sodium'') = curseforge_link (pys ''Sodium'')"
  using link_builders_verbatim [of "pys ''Sodium''" "pys ''Sodium''"] by simp

section \<open>Properties of the catalog matcher\<close>

text \<open>
  C6, as stated: whenever the metadata has a stable identifier and some hit has a slug
  equal to it, a link is returned. It fails for the metadata that \<open>parse_fabric\<close> builds
  from a manifest whose name is the number 5: \<^verbatim>\<open>.lower()\<close> raises on the name, the handler
  of \<open>modrinth_link\<close> catches it, and no link is returned although the only hit has the
  slug of the identifier.
\<close>

theorem exact_slug_match_rejected_counterexample:
  "parse_fabric (\<lambda>t. Some (PDict [(pys ''id'', PStr (pys ''sodium'')), (pys ''name'', PInt 5)]))
      (pys ''manifest'') (PStr (pys ''sodium-fabric''))
     = Inr (Some [(pys ''loader'', PStr (pys ''fabric'')), (pys ''id'', PStr (pys ''sodium'')),
                  (pys ''name'', PInt 5), (pys ''env'', PStr (pys ''*'')),
                  (pys ''icon'', PNone)])
   \<and> truthy (dget [(pys ''loader'', PStr (pys ''fabric'')), (pys ''id'', PStr (pys ''sodium'')),
                  (pys ''name'', PInt 5), (pys ''env'', PStr (pys ''*'')),
                  (pys ''icon'', PNone)] (pys ''id''))
   \<and> py_eq (dget [(pys ''slug'', PStr (pys ''sodium'')), (pys ''title'', PStr (pys ''Sodium''))]
               (pys ''slug''))
           (dget [(pys ''loader'', PStr (pys ''fabric'')), (pys ''id'', PStr (pys ''sodium'')),
                  (pys ''name'', PInt 5), (pys ''env'', PStr (pys ''*'')),
                  (pys ''icon'', PNone)] (pys ''id''))
   \<and> modrinth_link ascii_lower eq_ratio (\<lambda>v. [])
        [(pys ''loader'', PStr (pys ''fabric'')), (pys ''id'', PStr (pys ''sodium'')),
         (pys ''name'', PInt 5), (pys ''env'', PStr (pys ''*'')), (pys ''icon'', PNone)]
        (Response 200 (Some (PDict [(pys ''hits'', PList
          [PDict [(pys ''slug'', PStr (pys ''sodium'')),
                  (pys ''title'', PStr (pys ''Sodium''))]])])))
      = None"
  by (simp add: parse_fabric_def clean_json_def py_or_def dget_def dget_default_def
      modrinth_link_def hit_score_def similarity_def)

text \<open>
  C6, amended: the metadata has a stable identifier (a truthy \<^verbatim>\<open>id\<close>) and a name that is a
  string, the search answers with status 200 and a list of hits, each a dictionary whose
  title is a string or absent, and some hit has a slug equal to the identifier; the ratio
  of \<^verbatim>\<open>difflib\<close> lies between 0 and 1. Then the loop ends with a best score of at least 100,
  whatever the titles, and \<open>modrinth_link\<close> returns the link of a hit whose slug equals the
  identifier.
\<close>

theorem exact_slug_match_accepted:
  assumes ident: "truthy (dget meta (pys ''id''))"
    and name: "dget_default meta (pys ''name'') (PStr []) = PStr nm"
    and hits: "dget_default data (pys ''hits'') (PList []) = PList hs"
    and wf: "list_all titled_hit hs"
    and cand: "PDict c \<in> set hs" "py_eq (dget c (pys ''slug'')) (dget meta (pys ''id''))"
    and ratio: "\<forall>a b. 0 \<le> ratio a b \<and> ratio a b \<le> 1"
  shows "\<exists>best s v. score_hits lower ratio meta (None, 0) hs = Some (Some (PDict best), s)
      \<and> 100 \<le> s \<and> PDict best \<in> set hs \<and> map_of best (pys ''slug'') = Some v
      \<and> py_eq v (dget meta (pys ''id''))
      \<and> modrinth_link lower ratio other meta (Response 200 (Some (PDict data)))
          = Some (pys ''https://modrinth.com/mod/'' @ py_format other v)"
proof -
  have def: "list_all (\<lambda>x. hit_score lower ratio meta x \<noteq> None) hs"
    using wf hit_score_titled [OF name, of _ lower ratio]
    by (fastforce simp: list_all_iff)
  then obtain b' s' where run: "score_hits lower ratio meta (None, 0) hs = Some (b', s')"
    using score_hits_defined [of lower ratio meta hs "(None, 0)"] by fastforce
  have "titled_hit (PDict c)" using wf cand(1) by (simp add: list_all_iff)
  from hit_score_titled [OF name this, of lower ratio] obtain tc where
    sc: "hit_score lower ratio meta (PDict c) = Some (100 + ratio (lower nm) (lower tc) * 50)"
    using ident cand(2) by auto
  have scge: "100 \<le> 100 + ratio (lower nm) (lower tc) * 50" using ratio by simp
  from score_hits_result [OF run]
  obtain pre h post where d: "hs = pre @ h # post" "b' = Some h"
      "hit_score lower ratio meta h = Some s'" "0 < s'"
      "list_all (scored_below lower ratio meta s') pre"
      "list_all (scored_upto lower ratio meta s') post"
  proof (elim disjE exE conjE)
    assume "s' = 0" "list_all (scored_upto lower ratio meta 0) hs"
    with list_all_upto_mem [OF _ cand(1) sc] scge show ?thesis by fastforce
  qed blast
  have "PDict c \<in> set pre \<or> PDict c = h \<or> PDict c \<in> set post"
    using cand(1) d(1) by auto
  then have big: "100 \<le> s'"
  proof (elim disjE)
    assume "PDict c \<in> set pre"
    from list_all_below_mem [OF d(5) this sc] scge show ?thesis by simp
  next
    assume "PDict c = h"
    with sc d(3) scge show ?thesis by simp
  next
    assume "PDict c \<in> set post"
    from list_all_upto_mem [OF d(6) this sc] scge show ?thesis by simp
  qed
  have hin: "h \<in> set hs" using d(1) by simp
  then have "titled_hit h" using wf by (simp add: list_all_iff)
  from hit_score_titled [OF name this, of lower ratio] obtain best t where
    hb: "h = PDict best" and
    sh: "hit_score lower ratio meta h =
        Some ((if truthy (dget meta (pys ''id''))
                  \<and> py_eq (dget best (pys ''slug'')) (dget meta (pys ''id''))
               then 100 else 0) + ratio (lower nm) (lower t) * 50)"
    by blast
  have "ratio (lower nm) (lower t) * 50 < 100"
  proof -
    have "ratio (lower nm) (lower t) \<le> 1" using ratio by blast
    then show ?thesis by simp
  qed
  with sh d(3) big have m: "py_eq (dget best (pys ''slug'')) (dget meta (pys ''id''))"
    by (auto split: if_splits)
  have "map_of best (pys ''slug'') \<noteq> None"
  proof
    assume "map_of best (pys ''slug'') = None"
    then have "dget best (pys ''slug'') = PNone" by (simp add: dget_def)
    with m have "dget meta (pys ''id'') = PNone" by simp
    with ident show False by simp
  qed
  then obtain v where v: "map_of best (pys ''slug'') = Some v" by blast
  then have dv: "dget best (pys ''slug'') = v" by (simp add: dget_def)
  have acc: "accept_best other (Some (PDict best), s')
      = Some (pys ''https://modrinth.com/mod/'' @ py_format other v)"
    using big v by (simp add: accept_best_def)
  have q: "truthy (py_or (dget meta (pys ''id'')) (dget meta (pys ''name'')))"
    using ident by (simp add: py_or_def)
  have "modrinth_link lower ratio other meta (Response 200 (Some (PDict data)))
      = Some (pys ''https://modrinth.com/mod/'' @ py_format other v)"
    unfolding modrinth_link_def using q hits run d(2) hb acc by simp
  with run d(2) hb big hin v m dv show ?thesis by blast
qed

theorem exact_slug_match_accepted_witness:
  "truthy (dget [(pys ''loader'', PStr (pys ''fabric'')), (pys ''id'', PStr (pys ''sodium'')),
                 (pys ''name'', PStr (pys ''Sodium''))] (pys ''id''))
   \<and> PDict [(pys ''slug'', PStr (pys ''sodium'')), (pys ''title'', PStr (pys ''Unrelated''))]
       \<in> set [PDict [(pys ''slug'', PStr (pys ''other'')), (pys ''title'', PStr (pys ''Sodium''))],
               PDict [(pys ''slug'', PStr (pys ''sodium'')), (pys ''title'', PStr (pys ''Unrelated''))]]
   \<and> (\<exists>best s v.
        score_hits ascii_lower eq_ratio
          [(pys ''loader'', PStr (pys ''fabric'')), (pys ''id'', PStr (pys ''sodium'')),
           (pys ''name'', PStr (pys ''Sodium''))] (None, 0)
          [PDict [(pys ''slug'', PStr (pys ''other'')), (pys ''title'', PStr (pys ''Sodium''))],
           PDict [(pys ''slug'', PStr (pys ''sodium'')), (pys ''title'', PStr (pys ''Unrelated''))]]
          = Some (Some (PDict best), s)
        \<and> 100 \<le> s
        \<and> map_of best (pys ''slug'') = Some v
        \<and> modrinth_link ascii_lower eq_ratio (\<lambda>v. [])
            [(pys ''loader'', PStr (pys ''fabric'')), (pys ''id'', PStr (pys ''sodium'')),
             (pys ''name'', PStr (pys ''Sodium''))]
            (Response 200 (Some (PDict [(pys ''hits'', PList
              [PDict [(pys ''slug'', PStr (pys ''other'')), (pys ''title'', PStr (pys ''Sodium''))],
               PDict [(pys ''slug'', PStr (pys ''sodium'')),
                      (pys ''title'', PStr (pys ''Unrelated''))]])])))
            = Some (pys ''https://modrinth.com/mod/'' @ py_format (\<lambda>v. []) v))"
proof -
  let ?meta = "[(pys ''loader'', PStr (pys ''fabric'')), (pys ''id'', PStr (pys ''sodium'')),
                 (pys ''name'', PStr (pys ''Sodium''))]"
  let ?c = "[(pys ''slug'', PStr (pys ''sodium'')), (pys ''title'', PStr (pys ''Unrelated''))]"
  let ?hs = "[PDict [(pys ''slug'', PStr (pys ''other'')), (pys ''title'', PStr (pys ''Sodium''))],
               PDict ?c]"
  let ?data = "[(pys ''hits'', PList ?hs)]"
  have h1: "truthy (dget ?meta (pys ''id''))" by (simp add: dget_def)
  have h2: "dget_default ?meta (pys ''name'') (PStr []) = PStr (pys ''Sodium'')"
    by (simp add: dget_default_def)
  have h3: "dget_default ?data (pys ''hits'') (PList []) = PList ?hs"
    by (simp add: dget_default_def)
  have h4: "list_all titled_hit ?hs" by (simp add: titled_hit_def dget_default_def)
  have h5: "PDict ?c \<in> set ?hs" by simp
  have h6: "py_eq (dget ?c (pys ''slug'')) (dget ?meta (pys ''id''))" by (simp add: dget_def)
  have h7: "\<forall>a b. 0 \<le> eq_ratio a b \<and> eq_ratio a b \<le> 1" by (simp add: eq_ratio_def)
  from exact_slug_match_accepted [OF h1 h2 h3 h4 h5 h6 h7, of ascii_lower "\<lambda>v. []"]
  have "\<exists>best s v.
        score_hits ascii_lower eq_ratio ?meta (None, 0) ?hs = Some (Some (PDict best), s)
        \<and> 100 \<le> s \<and> map_of best (pys ''slug'') = Some v
        \<and> modrinth_link ascii_lower eq_ratio (\<lambda>v. []) ?meta (Response 200 (Some (PDict ?data)))
            = Some (pys ''https://modrinth.com/mod/'' @ py_format (\<lambda>v. []) v)"
    by blast
  with h1 h5 show ?thesis by blast
qed

text \<open>
  C10: whenever \<open>modrinth_link\<close> returns a link, it is the link of a hit whose score is
  maximal among the hits and strictly greater than the score of every hit before it in the
  response: among hits of equal maximal score the earliest is selected. The link is a
  function of the metadata and the response.
\<close>

theorem earliest_maximal_candidate_wins:
  assumes "modrinth_link lower ratio other meta resp = Some url"
  shows "\<exists>data hs pre best post s v.
      resp = Response 200 (Some (PDict data))
      \<and> iter_items (dget_default data (pys ''hits'') (PList [])) = Some hs
      \<and> hs = pre @ PDict best # post
      \<and> hit_score lower ratio meta (PDict best) = Some s \<and> 60 \<le> s
      \<and> list_all (scored_below lower ratio meta s) pre
      \<and> list_all (scored_upto lower ratio meta s) post
      \<and> map_of best (pys ''slug'') = Some v
      \<and> url = pys ''https://modrinth.com/mod/'' @ py_format other v"
proof -
  from modrinth_link_Some [OF assms] obtain data hs b s where
    r: "resp = Response 200 (Some (PDict data))"
      "iter_items (dget_default data (pys ''hits'') (PList [])) = Some hs"
      "score_hits lower ratio meta (None, 0) hs = Some (b, s)"
      "accept_best other (b, s) = Some url"
    by (metis surj_pair)
  from accept_best_Some [OF r(4)] obtain best v where
    a: "60 \<le> s" "b = Some (PDict best)" "map_of best (pys ''slug'') = Some v"
      "url = pys ''https://modrinth.com/mod/'' @ py_format other v"
    by blast
  from score_hits_result [OF r(3)] a(1,2)
  obtain pre h post where d: "hs = pre @ h # post" "b = Some h"
      "hit_score lower ratio meta h = Some s"
      "list_all (scored_below lower ratio meta s) pre"
      "list_all (scored_upto lower ratio meta s) post"
    by auto
  from d(2) a(2) have "h = PDict best" by simp
  with r a d show ?thesis by blast
qed

theorem earliest_maximal_candidate_wins_witness:
  "modrinth_link ascii_lower eq_ratio (\<lambda>v. [])
        [(pys ''loader'', PStr (pys ''fabric'')), (pys ''id'', PStr (pys ''sodium'')),
         (pys ''name'', PStr (pys ''Sodium''))]
        (Response 200 (Some (PDict [(pys ''hits'', PList
          [PDict [(pys ''slug'', PStr (pys ''sodium'')), (pys ''title'', PStr (pys ''First''))],
           PDict [(pys ''slug'', PStr (pys ''sodium'')), (pys ''title'', PStr (pys ''Second''))]])])))
      = Some (pys ''https://modrinth.com/mod/sodium'')
   \<and> (\<exists>data hs pre best post s v.
        Response 200 (Some (PDict [(pys ''hits'', PList
          [PDict [(pys ''slug'', PStr (pys ''sodium'')), (pys ''title'', PStr (pys ''First''))],
           PDict [(pys ''slug'', PStr (pys ''sodium'')), (pys ''title'', PStr (pys ''Second''))]])]))
          = Response 200 (Some (PDict data))
        \<and> iter_items (dget_default data (pys ''hits'') (PList [])) = Some hs
        \<and> hs = pre @ PDict best # post
        \<and> hit_score ascii_lower eq_ratio
            [(pys ''loader'', PStr (pys ''fabric'')), (pys ''id'', PStr (pys ''sodium'')),
             (pys ''name'', PStr (pys ''Sodium''))] (PDict best) = Some s
        \<and> 60 \<le> s
        \<and> list_all (scored_below ascii_lower eq_ratio
            [(pys ''loader'', PStr (pys ''fabric'')), (pys ''id'', PStr (pys ''sodium'')),
             (pys ''name'', PStr (pys ''Sodium''))] s) pre
        \<and> list_all (scored_upto ascii_lower eq_ratio
            [(pys ''loader'', PStr (pys ''fabric'')), (pys ''id'', PStr (pys ''sodium'')),
             (pys ''name'', PStr (pys ''Sodium''))] s) post
        \<and> map_of best (pys ''slug'') = Some v
        \<and> pys ''https://modrinth.com/mod/sodium''
            = pys ''https://modrinth.com/mod/'' @ py_format (\<lambda>v. []) v)"
proof (rule conjI)
  show h: "modrinth_link ascii_lower eq_ratio (\<lambda>v. [])
        [(pys ''loader'', PStr (pys ''fabric'')), (pys ''id'', PStr (pys ''sodium'')),
         (pys ''name'', PStr (pys ''Sodium''))]
        (Response 200 (Some (PDict [(pys ''hits'', PList
          [PDict [(pys ''slug'', PStr (pys ''sodium'')), (pys ''title'', PStr (pys ''First''))],
           PDict [(pys ''slug'', PStr (pys ''sodium'')), (pys ''title'', PStr (pys ''Second''))]])])))
      = Some (pys ''https://modrinth.com/mod/sodium'')"
    by (simp add: modrinth_link_def py_or_def dget_def dget_default_def hit_score_def
        similarity_def eq_ratio_def ascii_lower_def accept_best_def py_format_def)
  show "\<exists>data hs pre best post s v.
        Response 200 (Some (PDict [(pys ''hits'', PList
          [PDict [(pys ''slug'', PStr (pys ''sodium'')), (pys ''title'', PStr (pys ''First''))],
           PDict [(pys ''slug'', PStr (pys ''sodium'')), (pys ''title'', PStr (pys ''Second''))]])]))
          = Response 200 (Some (PDict data))
        \<and> iter_items (dget_default data (pys ''hits'') (PList [])) = Some hs
        \<and> hs = pre @ PDict best # post
        \<and> hit_score ascii_lower eq_ratio
            [(pys ''loader'', PStr (pys ''fabric'')), (pys ''id'', PStr (pys ''sodium'')),
             (pys ''name'', PStr (pys ''Sodium''))] (PDict best) = Some s
        \<and> 60 \<le> s
        \<and> list_all (scored_below ascii_lower eq_ratio
            [(pys ''loader'', PStr (pys ''fabric'')), (pys ''id'', PStr (pys ''sodium'')),
             (pys ''name'', PStr (pys ''Sodium''))] s) pre
        \<and> list_all (scored_upto ascii_lower eq_ratio
            [(pys ''loader'', PStr (pys ''fabric'')), (pys ''id'', PStr (pys ''sodium'')),
             (pys ''name'', PStr (pys ''Sodium''))] s) post
        \<and> map_of best (pys ''slug'') = Some v
        \<and> pys ''https://modrinth.com/mod/sodium''
            = pys ''https://modrinth.com/mod/'' @ py_format (\<lambda>v. []) v"
    by (rule earliest_maximal_candidate_wins [OF h])
qed

section \<open>The bound of the worker budget\<close>

text \<open>
  C5: in every state that a run with worker budget \<open>n\<close> and \<open>m\<close> archives can reach, at
  most \<open>n\<close> tasks are past the acquisition of the semaphore and have not released it; the
  bound is \<open>n\<close> for every \<open>m\<close>, in particular for \<open>m > n\<close>. The tasks holding a slot and the
  counter of the semaphore always add up to \<open>n\<close>.
\<close>

theorem worker_budget_bound:
  assumes "reachable n m s"
  shows "holders s \<le> n \<and> holders s + sem_value s = n \<and> length (phases s) = m"
proof -
  from assms have "holders s + sem_value s = n \<and> length (phases s) = m"
  proof (induction rule: reachable.induct)
    case (start n m)
    then show ?case by (simp add: holders_def)
  next
    case (step n m s s')
    with sched_step_invariant [OF step(2), of n] show ?case by simp
  qed
  then show ?thesis by simp
qed

theorem worker_budget_bound_witness:
  "reachable 1 3 \<lparr>sem_value = 0, phases = [Holding, Queued, Queued]\<rparr>
   \<and> holders \<lparr>sem_value = 0, phases = [Holding, Queued, Queued]\<rparr> \<le> 1"
proof -
  let ?s0 = "\<lparr>sem_value = 1, phases = replicate 3 Queued\<rparr>"
  have r0: "reachable 1 3 ?s0" by (rule reachable.start)
  have "sched_step ?s0 \<lparr>sem_value = sem_value ?s0 - 1, phases = (phases ?s0)[0 := Holding]\<rparr>"
    by (rule sched_step.acquire) (simp_all add: numeral_3_eq_3)
  then have "sched_step ?s0 \<lparr>sem_value = 0, phases = [Holding, Queued, Queued]\<rparr>"
    by (simp add: numeral_3_eq_3)
  with r0 have r: "reachable 1 3 \<lparr>sem_value = 0, phases = [Holding, Queued, Queued]\<rparr>"
    by (rule reachable.step)
  from worker_budget_bound [OF r] r show ?thesis by blast
qed

section \<open>The run and its report\<close>









end
